theory Spec2Isabelle
  imports Main "HOL-Library.Char_ord" "HOL-Library.List_Lexorder" "HOL-Library.Product_Lexorder"
    "HOL-Library.Log_Nat" "HOL-Library.Signed_Division" "HOL-Library.Word"
begin

section \<open>Time values\<close>

text \<open>
  A \<open>time.Duration\<close> is an int64 count of nanoseconds: a 64-bit word read as a signed
  number, whose negation and addition wrap around.

  A \<open>time.Time\<close> is modelled as the number of nanoseconds since the Unix epoch, an
  unbounded integer. Go keeps the seconds of a Time as an int64 counted from the year 1
  and saturates there; a reading of the clock is more than the whole range of a Duration
  away from these bounds, so that \<open>Add\<close> is the exact sum. \<open>Time.Unix()\<close> is the number
  of whole seconds since the epoch, rounded towards minus infinity. \<open>time.Unix(sec, 0)\<close>
  is the instant at that second; it adds the seconds between the year 1 and 1970 to
  \<open>sec\<close> in int64.
\<close>

type_synonym Time = int
type_synonym Duration = "64 word"

text \<open>The nanoseconds in a second.\<close>

definition Second :: int where
  "Second = 1000000000"

definition Unix :: "Time \<Rightarrow> int" where
  "Unix t = t div Second"

definition unixToInternal :: int where
  "unixToInternal = 62135596800"

definition time_Unix :: "int \<Rightarrow> Time" where
  "time_Unix sec =
     (sint (word_of_int (sec + unixToInternal) :: 64 word) - unixToInternal) * Second"

definition Add :: "Time \<Rightarrow> Duration \<Rightarrow> Time" where
  "Add t d = t + sint d"

section \<open>Package db: the ledger\<close>

text \<open>
  Strings are byte lists compared bytewise and lexicographically, as Go's \<open><\<close> on
  strings and SQLite's default BINARY collation do.
\<close>

record Host =
  Hostname :: string
  LastSeen :: Time

text \<open>The fields of \<open>db.Service\<close>; the prefix keeps them apart from those of \<open>Host\<close>.\<close>

record Service =
  svc_Hostname :: string
  ServiceDescription :: string
  svc_LastSeen :: Time

text \<open>
  The two tables of \<open>initSchema\<close>: \<open>hosts(hostname PRIMARY KEY, last_seen)\<close> and
  \<open>services(hostname, service_description, last_seen, PRIMARY KEY (hostname,
  service_description))\<close>, each a list of rows (key, last_seen in Unix seconds).
\<close>

record Manager =
  hosts_table :: "(string \<times> int) list"
  services_table :: "((string \<times> string) \<times> int) list"

text \<open>
  An error value: the error of the SQLite driver, or \<open>fmt.Errorf("<text>: %w", err)\<close>,
  which puts a text before another error.
\<close>

datatype error = SqlError | Errorf string error

text \<open>The primary keys: no two rows of a table share a key.\<close>

definition primary_keys :: "Manager \<Rightarrow> bool" where
  "primary_keys m = (distinct (map fst (hosts_table m)) \<and> distinct (map fst (services_table m)))"

text \<open>\<open>INSERT ... ON CONFLICT(key) DO UPDATE SET last_seen = excluded.last_seen\<close>.\<close>

fun upsert :: "'k \<Rightarrow> int \<Rightarrow> ('k \<times> int) list \<Rightarrow> ('k \<times> int) list" where
  "upsert k v [] = [(k, v)]"
| "upsert k v ((k', v') # rows) =
     (if k' = k then (k, v) # rows else (k', v') # upsert k v rows)"

text \<open>
  \<open>DELETE FROM t WHERE last_seen < ?\<close>: the rows that stay and the number of rows
  deleted.
\<close>

fun delete_older :: "int \<Rightarrow> ('k \<times> int) list \<Rightarrow> ('k \<times> int) list \<times> nat" where
  "delete_older cutoff [] = ([], 0)"
| "delete_older cutoff ((k, last_seen) # rows) =
     (case delete_older cutoff rows of (kept, n) \<Rightarrow>
        if last_seen < cutoff then (kept, Suc n) else ((k, last_seen) # kept, n))"

text \<open>
  How a statement run with \<open>db.Exec\<close> can end: it runs, it fails (and changes nothing),
  or it runs and the driver cannot report \<open>RowsAffected\<close>.
\<close>

datatype exec_fault = ExecOK | ExecFails | RowsAffectedFails

text \<open>\<open>UpdateHost\<close> and \<open>UpdateService\<close>; the flag says whether \<open>db.Exec\<close> fails.\<close>

definition UpdateHost :: "bool \<Rightarrow> string \<Rightarrow> Time \<Rightarrow> Manager \<Rightarrow> Manager \<times> error option" where
  "UpdateHost exec_fails hostname lastSeen m =
     (let unixTime = Unix lastSeen in
      if exec_fails then (m, Some (Errorf (''failed to update host '' @ hostname) SqlError))
      else (m\<lparr>hosts_table := upsert hostname unixTime (hosts_table m)\<rparr>, None))"

definition UpdateService ::
  "bool \<Rightarrow> string \<Rightarrow> string \<Rightarrow> Time \<Rightarrow> Manager \<Rightarrow> Manager \<times> error option" where
  "UpdateService exec_fails hostname serviceDescription lastSeen m =
     (let unixTime = Unix lastSeen in
      if exec_fails
      then (m, Some (Errorf (''failed to update service '' @ [CHR 0x27] @ serviceDescription
                               @ [CHR 0x27] @ '' on host '' @ hostname) SqlError))
      else (m\<lparr>services_table :=
                upsert (hostname, serviceDescription) unixTime (services_table m)\<rparr>, None))"

text \<open>
  \<open>GetAllHosts\<close>: \<open>SELECT hostname, last_seen FROM hosts ORDER BY hostname\<close>, each row
  scanned into a \<open>Host\<close>. The flag says whether the query (or a scan, or the iteration)
  fails; then the result is \<open>nil\<close> and the error.
\<close>

definition GetAllHosts :: "bool \<Rightarrow> Manager \<Rightarrow> error + Host list" where
  "GetAllHosts query_fails m =
     (if query_fails then Inl (Errorf ''failed to query hosts'' SqlError)
      else Inr (map (\<lambda>(hostname, lastSeenUnix).
                       \<lparr>Hostname = hostname, LastSeen = time_Unix lastSeenUnix\<rparr>)
                    (sort_key fst (hosts_table m))))"

text \<open>\<open>GetAllServices\<close>: \<open>... ORDER BY hostname, service_description\<close>.\<close>

definition GetAllServices :: "bool \<Rightarrow> Manager \<Rightarrow> error + Service list" where
  "GetAllServices query_fails m =
     (if query_fails then Inl (Errorf ''failed to query services'' SqlError)
      else Inr (map (\<lambda>((hostname, serviceDescription), lastSeenUnix).
                       \<lparr>svc_Hostname = hostname, ServiceDescription = serviceDescription,
                        svc_LastSeen = time_Unix lastSeenUnix\<rparr>)
                    (sort_key fst (services_table m))))"

text \<open>
  \<open>DeleteStaleHosts\<close> and \<open>DeleteStaleServices\<close>: the new ledger, the count returned and
  the error returned. When \<open>RowsAffected\<close> fails the rows are gone and the function
  returns 0 and no error.
\<close>

definition DeleteStaleHosts :: "exec_fault \<Rightarrow> Time \<Rightarrow> Manager \<Rightarrow> Manager \<times> int \<times> error option" where
  "DeleteStaleHosts fault threshold m =
     (case fault of
        ExecFails \<Rightarrow> (m, 0, Some (Errorf ''failed to execute delete stale hosts query'' SqlError))
      | RowsAffectedFails \<Rightarrow>
          (m\<lparr>hosts_table := fst (delete_older (Unix threshold) (hosts_table m))\<rparr>, 0, None)
      | ExecOK \<Rightarrow>
          (case delete_older (Unix threshold) (hosts_table m) of
             (kept, rowsAffected) \<Rightarrow> (m\<lparr>hosts_table := kept\<rparr>, int rowsAffected, None)))"

definition DeleteStaleServices ::
  "exec_fault \<Rightarrow> Time \<Rightarrow> Manager \<Rightarrow> Manager \<times> int \<times> error option" where
  "DeleteStaleServices fault threshold m =
     (case fault of
        ExecFails \<Rightarrow> (m, 0, Some (Errorf ''failed to execute delete stale services query'' SqlError))
      | RowsAffectedFails \<Rightarrow>
          (m\<lparr>services_table := fst (delete_older (Unix threshold) (services_table m))\<rparr>, 0, None)
      | ExecOK \<Rightarrow>
          (case delete_older (Unix threshold) (services_table m) of
             (kept, rowsAffected) \<Rightarrow> (m\<lparr>services_table := kept\<rparr>, int rowsAffected, None)))"

section \<open>Go library functions used by the generator\<close>

subsection \<open>\<open>int(d.Seconds())\<close>\<close>

text \<open>
  \<open>Duration.Seconds\<close> is \<open>float64(d / Second) + float64(d % Second) / 1e9\<close> in IEEE
  double precision (Go's \<open>/\<close> and \<open>%\<close> on int64 truncate towards zero). A double is
  modelled by the rational it denotes; \<open>float64\<close> rounds a rational to the nearest
  number with a 53-bit significand, ties to even (all values here are in the normal
  range). \<open>ilog2 a\<close> is the exponent of the leading bit of a positive \<open>a\<close>.
\<close>

definition round_half_even :: "rat \<Rightarrow> int" where
  "round_half_even x =
     (let f = \<lfloor>x\<rfloor>; r = x - of_int f in
      if r < 1 / 2 then f else if 1 / 2 < r then f + 1 else if even f then f else f + 1)"

definition ilog2 :: "rat \<Rightarrow> int" where
  "ilog2 a = (case quotient_of a of (p, q) \<Rightarrow>
                let k = bitlen p - bitlen q in if 2 powi k \<le> a then k else k - 1)"

definition float64 :: "rat \<Rightarrow> rat" where
  "float64 x = (if x = 0 then 0
                else let u = 2 powi (ilog2 \<bar>x\<bar> - 52) in of_int (round_half_even (x / u)) * u)"

definition Seconds :: "Duration \<Rightarrow> rat" where
  "Seconds d =
     (let sec = sint d sdiv Second; nsec = sint d smod Second in
      float64 (float64 (of_int sec) + float64 (float64 (of_int nsec) / 1000000000)))"

text \<open>
  The conversion \<open>int(f)\<close> of a float: the fraction is dropped (towards zero). The
  seconds of a Duration are below \<open>2^34\<close> in size and fit the 64-bit \<open>int\<close>.
\<close>

definition go_int :: "rat \<Rightarrow> int" where
  "go_int x = (if x < 0 then - \<lfloor>- x\<rfloor> else \<lfloor>x\<rfloor>)"

subsection \<open>\<open>fmt.Sprintf("%d", n)\<close>\<close>

definition digit :: "nat \<Rightarrow> char" where
  "digit n = ''0123456789'' ! n"

fun show_nat :: "nat \<Rightarrow> string" where
  "show_nat n = (if n < 10 then [digit n] else show_nat (n div 10) @ [digit (n mod 10)])"

declare show_nat.simps [simp del]

definition Sprintf_d :: "int \<Rightarrow> string" where
  "Sprintf_d n = (if n < 0 then ''-'' @ show_nat (nat (- n)) else show_nat (nat n))"

subsection \<open>Files\<close>

text \<open>The file system is a map from path to content.\<close>

type_synonym filesystem = "string \<rightharpoonup> string"

datatype os_error = ErrNotExist | ErrOther

text \<open>
  \<open>filepath.Clean\<close> on a Unix path. The path is cut at its slashes; empty elements and
  \<open>.\<close> are dropped, \<open>..\<close> removes the element before it, is dropped at the root, and
  is kept at the start of a path that is not rooted. The elements that remain are joined
  by single slashes, after the root slash if the path is rooted; an empty result is
  \<open>.\<close>.
\<close>

fun split_from :: "string \<Rightarrow> string \<Rightarrow> string list" where
  "split_from element [] = [element]"
| "split_from element (c # cs) =
     (if c = CHR ''/'' then element # split_from [] cs else split_from (element @ [c]) cs)"

definition split_slash :: "string \<Rightarrow> string list" where
  "split_slash path = split_from [] path"

definition clean_step :: "bool \<Rightarrow> string list \<Rightarrow> string \<Rightarrow> string list" where
  "clean_step rooted out element =
     (if element = [] \<or> element = ''.'' then out
      else if element = ''..''
      then (if out \<noteq> [] \<and> last out \<noteq> ''..'' then butlast out
            else if rooted then out else out @ [''..''])
      else out @ [element])"

fun join_slash :: "string list \<Rightarrow> string" where
  "join_slash [] = []"
| "join_slash [element] = element"
| "join_slash (element # elements) = element @ ''/'' @ join_slash elements"

definition Clean :: "string \<Rightarrow> string" where
  "Clean path =
     (let rooted = (path \<noteq> [] \<and> hd path = CHR ''/'');
          out = (if rooted then ''/'' else [])
                  @ join_slash (foldl (clean_step rooted) [] (split_slash path))
      in if out = [] then ''.'' else out)"

text \<open>
  \<open>filepath.Join\<close> of two elements: the elements that are not empty, joined by a slash
  and cleaned; the empty string when both are empty.
\<close>

definition filepath_Join :: "string \<Rightarrow> string \<Rightarrow> string" where
  "filepath_Join dir name =
     (if dir \<noteq> [] then Clean (dir @ ''/'' @ name)
      else if name \<noteq> [] then Clean name
      else [])"

text \<open>
  A plain file name, and the part that \<open>filepath.Join\<close> puts before a plain file name
  for a directory: the cleaned directory and a slash.
\<close>

definition plain_name :: "string \<Rightarrow> bool" where
  "plain_name name = (name \<noteq> [] \<and> name \<noteq> ''.'' \<and> name \<noteq> ''..'' \<and> CHR ''/'' \<notin> set name)"

definition join_prefix :: "string \<Rightarrow> string" where
  "join_prefix dir =
     (if dir = [] then []
      else (if hd dir = CHR ''/'' then ''/'' else [])
             @ concat (map (\<lambda>x. x @ ''/'')
                 (foldl (clean_step (hd dir = CHR ''/'')) [] (split_slash dir))))"

text \<open>
  \<open>ioutil.ReadFile\<close> returns the bytes read and the error. A missing file gives no bytes
  and \<open>os.ErrNotExist\<close>; a read that fails returns the bytes read before the failure
  (none when the file cannot be opened).
\<close>

datatype read_fault = ReadOK | ReadFailsAfter nat

definition ReadFile :: "read_fault \<Rightarrow> filesystem \<Rightarrow> string \<Rightarrow> string \<times> os_error option" where
  "ReadFile fault fs name =
     (case fs name of
        None \<Rightarrow> ([], Some ErrNotExist)
      | Some content \<Rightarrow>
          (case fault of
             ReadOK \<Rightarrow> (content, None)
           | ReadFailsAfter n \<Rightarrow> (take n content, Some ErrOther)))"

text \<open>
  \<open>ioutil.WriteFile\<close> creates or truncates the file and writes the data. It can fail
  before the file is opened, or after part of the data is written.
\<close>

datatype write_fault = WriteOK | OpenFails | WriteFailsAfter nat

definition WriteFile ::
  "write_fault \<Rightarrow> string \<Rightarrow> string \<Rightarrow> filesystem \<Rightarrow> filesystem \<times> os_error option" where
  "WriteFile fault name data fs =
     (case fault of
        WriteOK \<Rightarrow> (fs(name \<mapsto> data), None)
      | OpenFails \<Rightarrow> (fs, Some ErrOther)
      | WriteFailsAfter n \<Rightarrow> (fs(name \<mapsto> take n data), Some ErrOther))"

text \<open>\<open>os.Rename\<close> replaces the new path by the old file in one step, or changes nothing.\<close>

definition Rename :: "bool \<Rightarrow> string \<Rightarrow> string \<Rightarrow> filesystem \<Rightarrow> filesystem \<times> os_error option" where
  "Rename fails oldpath newpath fs =
     (if fails then (fs, Some ErrOther)
      else case fs oldpath of
             None \<Rightarrow> (fs, Some ErrNotExist)
           | Some content \<Rightarrow> ((fs(oldpath := None))(newpath \<mapsto> content), None))"

definition Remove :: "bool \<Rightarrow> string \<Rightarrow> filesystem \<Rightarrow> filesystem \<times> os_error option" where
  "Remove fails name fs =
     (if fails then (fs, Some ErrOther)
      else case fs name of
             None \<Rightarrow> (fs, Some ErrNotExist)
           | Some content \<Rightarrow> (fs(name := None), None))"

section \<open>Package nagios_config: the generator\<close>

record NagiosConfig =
  OutputDir :: string
  HostTemplate :: string
  ServiceTemplate :: string

record Generator =
  config :: NagiosConfig
  interval :: Duration
  staleThreshold :: Duration

subsection \<open>Rendering\<close>

definition WriteString :: "string \<Rightarrow> string \<Rightarrow> string" where
  "WriteString buffer s = buffer @ s"

text \<open>
  The loop \<open>servicesByHost[s.Hostname] = append(servicesByHost[s.Hostname], s)\<close>; a key
  that is not in the map reads as the nil slice.
\<close>

definition group_step :: "(string \<rightharpoonup> Service list) \<Rightarrow> Service \<Rightarrow> (string \<rightharpoonup> Service list)" where
  "group_step servicesByHost s =
     servicesByHost(svc_Hostname s \<mapsto>
       (case servicesByHost (svc_Hostname s) of None \<Rightarrow> [] | Some xs \<Rightarrow> xs) @ [s])"

definition group_services :: "Service list \<Rightarrow> (string \<rightharpoonup> Service list)" where
  "group_services services = foldl group_step Map.empty services"

text \<open>The body of the loop over a host's services.\<close>

definition write_service :: "Generator \<Rightarrow> string \<Rightarrow> Service \<Rightarrow> string" where
  "write_service g buffer s =
     (let buffer = WriteString buffer ''define service {\<newline>'';
          buffer = WriteString buffer
            (''    use                     '' @ ServiceTemplate (config g) @ ''\<newline>'');
          buffer = WriteString buffer
            (''    host_name               '' @ svc_Hostname s @ ''\<newline>'');
          buffer = WriteString buffer
            (''    service_description     '' @ ServiceDescription s @ ''\<newline>'');
          buffer = WriteString buffer ''    check_command           check_dummy!0!OK\<newline>'';
          buffer = WriteString buffer ''    active_checks_enabled   0\<newline>'';
          buffer = WriteString buffer ''    passive_checks_enabled  1\<newline>'';
          buffer = WriteString buffer ''    check_freshness         1\<newline>'';
          buffer = WriteString buffer
            (''    freshness_threshold     ''
               @ Sprintf_d (go_int (Seconds (staleThreshold g))) @ ''\<newline>'');
          buffer = WriteString buffer ''    notification_interval   0\<newline>'';
          buffer = WriteString buffer ''}\<newline>\<newline>''
      in buffer)"

text \<open>The host definition written at the start of the loop over the hosts.\<close>

definition write_host_definition :: "Generator \<Rightarrow> string \<Rightarrow> Host \<Rightarrow> string" where
  "write_host_definition g buffer h =
     (let buffer = WriteString buffer ''define host {\<newline>'';
          buffer = WriteString buffer
            (''    use                 '' @ HostTemplate (config g) @ ''\<newline>'');
          buffer = WriteString buffer
            (''    host_name           '' @ Hostname h @ ''\<newline>'');
          buffer = WriteString buffer
            (''    alias               '' @ Hostname h @ ''\<newline>'');
          buffer = WriteString buffer ''}\<newline>\<newline>''
      in buffer)"

text \<open>
  The body of the loop over the hosts: the host definition, then the host's services in
  the order of \<open>sort.Slice\<close> by description. \<open>sort.Slice\<close> is not stable; it is
  modelled by a stable sort, which gives the same text, since services with equal
  descriptions under one host print the same block.
\<close>

definition write_host ::
  "Generator \<Rightarrow> (string \<rightharpoonup> Service list) \<Rightarrow> string \<Rightarrow> Host \<Rightarrow> string" where
  "write_host g servicesByHost buffer h =
     (let buffer = write_host_definition g buffer h
      in case servicesByHost (Hostname h) of
           None \<Rightarrow> buffer
         | Some hostServices \<Rightarrow>
             foldl (write_service g) buffer (sort_key ServiceDescription hostServices))"

text \<open>Step 3 of \<open>generateConfigs\<close>: the new content, from the rows fetched.\<close>

definition render :: "Generator \<Rightarrow> Host list \<Rightarrow> Service list \<Rightarrow> string" where
  "render g hosts services =
     (let servicesByHost = group_services services
      in foldl (write_host g servicesByHost) [] (sort_key Hostname hosts))"

subsection \<open>The regeneration cycle\<close>

text \<open>
  What the surroundings of one cycle decide: how each store operation and each file
  operation ends, and whether a receiver is waiting on \<open>ReloadChan\<close> when the cycle
  sends (the channel has no buffer and the send does not block).
\<close>

record env =
  del_hosts_fault :: exec_fault
  del_services_fault :: exec_fault
  get_hosts_fails :: bool
  get_services_fails :: bool
  read_fault :: read_fault
  write_fault :: write_fault
  rename_fails :: bool
  remove_fails :: bool
  receiver_ready :: bool

record world =
  ledger :: Manager
  files :: filesystem

text \<open>The file operations and channel sends a cycle performs, in order, each with its result.\<close>

datatype effect =
    EvWriteFile string string "os_error option"
  | EvRename string string "os_error option"
  | EvRemove string "os_error option"
  | EvReload bool

datatype outcome =
    HostsFetchFailed
  | ServicesFetchFailed
  | NoActiveRecords
  | Identical
  | WriteFailed
  | RenameFailed
  | Updated

record cycle =
  after :: world
  trace :: "effect list"
  outcome :: outcome
  newConfigContent :: "string option"

definition tempFileName :: "Generator \<Rightarrow> string" where
  "tempFileName g = filepath_Join (OutputDir (config g)) ''nrdp_generated.cfg.tmp''"

definition finalFileName :: "Generator \<Rightarrow> string" where
  "finalFileName g = filepath_Join (OutputDir (config g)) ''nrdp_generated.cfg''"

text \<open>
  The end of \<open>generateConfigs\<close>, once the content is known to differ: write the temporary
  file, rename it onto the final file, signal the reload.
\<close>

definition publish :: "Generator \<Rightarrow> env \<Rightarrow> string \<Rightarrow> world \<Rightarrow> cycle" where
  "publish g e content w =
     (case WriteFile (write_fault e) (tempFileName g) content (files w) of
        (fs1, Some err) \<Rightarrow>
          \<lparr>after = w\<lparr>files := fs1\<rparr>,
           trace = [EvWriteFile (tempFileName g) content (Some err)],
           outcome = WriteFailed, newConfigContent = Some content\<rparr>
      | (fs1, None) \<Rightarrow>
          (case Rename (rename_fails e) (tempFileName g) (finalFileName g) fs1 of
             (fs2, Some err) \<Rightarrow>
               (case Remove (remove_fails e) (tempFileName g) fs2 of
                  (fs3, removeErr) \<Rightarrow>
                    \<lparr>after = w\<lparr>files := fs3\<rparr>,
                     trace = [EvWriteFile (tempFileName g) content None,
                              EvRename (tempFileName g) (finalFileName g) (Some err),
                              EvRemove (tempFileName g) removeErr],
                     outcome = RenameFailed, newConfigContent = Some content\<rparr>)
           | (fs2, None) \<Rightarrow>
               \<lparr>after = w\<lparr>files := fs2\<rparr>,
                trace = [EvWriteFile (tempFileName g) content None,
                         EvRename (tempFileName g) (finalFileName g) None,
                         EvReload (receiver_ready e)],
                outcome = Updated, newConfigContent = Some content\<rparr>))"

text \<open>
  Step 1 of \<open>generateConfigs\<close>: both deletions run, whatever the first returns; their
  counts and errors are only logged.
\<close>

definition prune :: "Generator \<Rightarrow> env \<Rightarrow> Time \<Rightarrow> Manager \<Rightarrow> Manager" where
  "prune g e now m =
     (let staleCutoff = Add now (- staleThreshold g);
          m1 = fst (DeleteStaleHosts (del_hosts_fault e) staleCutoff m);
          m2 = fst (DeleteStaleServices (del_services_fault e) staleCutoff m1)
      in m2)"

text \<open>\<open>generateConfigs\<close> at the time \<open>now\<close>: prune, fetch, render, compare, publish.\<close>

definition generateConfigs :: "Generator \<Rightarrow> env \<Rightarrow> Time \<Rightarrow> world \<Rightarrow> cycle" where
  "generateConfigs g e now w =
     (let w = w\<lparr>ledger := prune g e now (ledger w)\<rparr>
      in case GetAllHosts (get_hosts_fails e) (ledger w) of
           Inl err \<Rightarrow>
             \<lparr>after = w, trace = [], outcome = HostsFetchFailed, newConfigContent = None\<rparr>
         | Inr hosts \<Rightarrow>
             (case GetAllServices (get_services_fails e) (ledger w) of
                Inl err \<Rightarrow>
                  \<lparr>after = w, trace = [], outcome = ServicesFetchFailed,
                   newConfigContent = None\<rparr>
              | Inr services \<Rightarrow>
                  if length hosts = 0 \<and> length services = 0
                  then \<lparr>after = w, trace = [], outcome = NoActiveRecords,
                        newConfigContent = None\<rparr>
                  else
                    let content = render g hosts services;
                        existingConfigContent =
                          fst (ReadFile (read_fault e) (files w) (finalFileName g))
                    in if content = existingConfigContent
                       then \<lparr>after = w, trace = [], outcome = Identical,
                             newConfigContent = Some content\<rparr>
                       else publish g e content w))"

subsection \<open>The definitions a rendering emits\<close>

text \<open>
  The rendered text seen as a sequence of definitions: for each host in order of
  hostname its host definition, then the services grouped under it in order of
  description.
\<close>

datatype object_definition = HostDef Host | ServiceDef Service

definition definition_text :: "Generator \<Rightarrow> object_definition \<Rightarrow> string" where
  "definition_text g d =
     (case d of HostDef h \<Rightarrow> write_host_definition g [] h
              | ServiceDef s \<Rightarrow> write_service g [] s)"

definition emitted :: "Host list \<Rightarrow> Service list \<Rightarrow> object_definition list" where
  "emitted hosts services =
     concat (map (\<lambda>h. HostDef h #
                     map ServiceDef (sort_key ServiceDescription
                       (filter (\<lambda>s. svc_Hostname s = Hostname h) services)))
                 (sort_key Hostname hosts))"

text \<open>The name a definition is known by: the host, and the description of a service.\<close>

definition definition_name :: "object_definition \<Rightarrow> string \<times> string option" where
  "definition_name d =
     (case d of HostDef h \<Rightarrow> (Hostname h, None)
              | ServiceDef s \<Rightarrow> (svc_Hostname s, Some (ServiceDescription s)))"

subsection \<open>Example inputs\<close>

text \<open>The generator of \<open>DefaultConfig\<close>: a cycle every 30 seconds, stale after 6 hours.\<close>

definition default_generator :: Generator where
  "default_generator =
     \<lparr>config = \<lparr>OutputDir = ''/etc/nagios4/dynamic'', HostTemplate = ''linux-server'',
                ServiceTemplate = ''generic-service''\<rparr>,
      interval = 30000000000, staleThreshold = 21600000000000\<rparr>"

definition no_faults :: env where
  "no_faults =
     \<lparr>del_hosts_fault = ExecOK, del_services_fault = ExecOK, get_hosts_fails = False,
      get_services_fails = False, read_fault = ReadOK, write_fault = WriteOK,
      rename_fails = False, remove_fails = False, receiver_ready = True\<rparr>"

text \<open>
  A ledger with two hosts, two services of the first host and a service of a host that has
  no row, and a ledger with that last service only.
\<close>

definition example_ledger :: Manager where
  "example_ledger =
     \<lparr>hosts_table = [(''web2'', 1700000100), (''web1'', 1700000000)],
      services_table = [((''web1'', ''PING''), 1700000000), ((''web1'', ''HTTP''), 1700000050),
                        ((''ghost'', ''SSH''), 1700000200)]\<rparr>"

definition orphan_ledger :: Manager where
  "orphan_ledger = \<lparr>hosts_table = [], services_table = [((''ghost'', ''SSH''), 1700000200)]\<rparr>"

section \<open>The ledger operations\<close>

lemma upsert_lookup: "map_of (upsert k v rows) k = Some v"
  by (induction rows) auto

lemma upsert_other: "k' \<noteq> k \<Longrightarrow> map_of (upsert k v rows) k' = map_of rows k'"
  by (induction rows) auto

lemma upsert_keys: "fst ` set (upsert k v rows) = insert k (fst ` set rows)"
proof (induction rows)
  case Nil
  show ?case by simp
next
  case (Cons r rows)
  obtain k' v' where r: "r = (k', v')" by (cases r)
  show ?case
  proof (cases "k' = k")
    case True
    then show ?thesis by (simp add: r)
  next
    case False
    then show ?thesis using Cons.IH by (simp add: r insert_commute)
  qed
qed

lemma upsert_distinct: "distinct (map fst rows) \<Longrightarrow> distinct (map fst (upsert k v rows))"
proof (induction rows)
  case Nil
  show ?case by simp
next
  case (Cons r rows)
  obtain k' v' where r: "r = (k', v')" by (cases r)
  have "k' \<noteq> k \<Longrightarrow> k' \<notin> fst ` set (upsert k v rows)"
    using Cons.prems upsert_keys [of k v rows] by (auto simp: r)
  with Cons show ?case by (auto simp: r)
qed

text \<open>
  C8. \<open>UpdateHost\<close> overwrites the stored last_seen with the supplied timestamp whatever
  was stored: after two successful calls for one hostname the stored value is the second
  call's timestamp (in Unix seconds), also when it is the earlier of the two, so a late
  event moves last_seen backward. Other hosts and the services keep their rows.
\<close>

theorem UpdateHost_last_write_wins:
  "map_of (hosts_table (fst (UpdateHost False h t2 (fst (UpdateHost False h t1 m))))) h
     = Some (Unix t2)
   \<and> snd (UpdateHost False h t2 (fst (UpdateHost False h t1 m))) = None
   \<and> (t2 \<le> t1 \<longrightarrow>
        the (map_of (hosts_table (fst (UpdateHost False h t2 (fst (UpdateHost False h t1 m))))) h)
          \<le> the (map_of (hosts_table (fst (UpdateHost False h t1 m))) h))
   \<and> (h' \<noteq> h \<longrightarrow>
        map_of (hosts_table (fst (UpdateHost False h t2 (fst (UpdateHost False h t1 m))))) h'
          = map_of (hosts_table m) h')
   \<and> services_table (fst (UpdateHost False h t2 (fst (UpdateHost False h t1 m))))
       = services_table m"
  by (simp add: UpdateHost_def upsert_lookup upsert_other Unix_def Second_def zdiv_mono1)

theorem UpdateHost_last_write_wins_witness:
  "map_of (hosts_table (fst (UpdateHost False ''web1'' 5000000000
       (fst (UpdateHost False ''web1'' 9000000000
          \<lparr>hosts_table = [(''db1'', 7)], services_table = []\<rparr>))))) ''web1'' = Some 5
   \<and> map_of (hosts_table (fst (UpdateHost False ''web1'' 9000000000
          \<lparr>hosts_table = [(''db1'', 7)], services_table = []\<rparr>))) ''web1'' = Some 9
   \<and> map_of (hosts_table (fst (UpdateHost False ''web1'' 5000000000
       (fst (UpdateHost False ''web1'' 9000000000
          \<lparr>hosts_table = [(''db1'', 7)], services_table = []\<rparr>))))) ''db1'' = Some 7"
  using UpdateHost_last_write_wins [of "''web1''" 5000000000 9000000000
      "\<lparr>hosts_table = [(''db1'', 7)], services_table = []\<rparr>" "''db1''"]
  by (simp add: UpdateHost_def Unix_def Second_def)

lemma delete_older_kept: "fst (delete_older c rows) = filter (\<lambda>r. \<not> snd r < c) rows"
  by (induction rows) (auto split: prod.splits)

lemma delete_older_count: "snd (delete_older c rows) = length (filter (\<lambda>r. snd r < c) rows)"
  by (induction rows) (auto split: prod.splits)

lemma delete_older_distinct:
  "distinct (map fst rows) \<Longrightarrow> distinct (map fst (fst (delete_older c rows)))"
  by (simp add: delete_older_kept distinct_map_filter)

lemma DeleteStale_tables:
  "hosts_table (fst (DeleteStaleHosts f c m))
     = (if f = ExecFails then hosts_table m else fst (delete_older (Unix c) (hosts_table m)))"
  "services_table (fst (DeleteStaleHosts f c m)) = services_table m"
  "services_table (fst (DeleteStaleServices f c m))
     = (if f = ExecFails then services_table m else fst (delete_older (Unix c) (services_table m)))"
  "hosts_table (fst (DeleteStaleServices f c m)) = hosts_table m"
  by (cases f; simp add: DeleteStaleHosts_def DeleteStaleServices_def split: prod.splits)+

lemma prune_tables:
  "hosts_table (prune g e now m)
     = (if del_hosts_fault e = ExecFails then hosts_table m
        else fst (delete_older (Unix (Add now (- staleThreshold g))) (hosts_table m)))"
  "services_table (prune g e now m)
     = (if del_services_fault e = ExecFails then services_table m
        else fst (delete_older (Unix (Add now (- staleThreshold g))) (services_table m)))"
  by (simp_all add: prune_def Let_def DeleteStale_tables)

lemma primary_keys_prune: "primary_keys m \<Longrightarrow> primary_keys (prune g e now m)"
  by (simp add: primary_keys_def prune_tables delete_older_distinct)

lemma primary_keys_UpdateHost: "primary_keys m \<Longrightarrow> primary_keys (fst (UpdateHost f h t m))"
  by (simp add: primary_keys_def UpdateHost_def upsert_distinct)

lemma primary_keys_UpdateService:
  "primary_keys m \<Longrightarrow> primary_keys (fst (UpdateService f h d t m))"
  by (simp add: primary_keys_def UpdateService_def upsert_distinct)

lemma primary_keys_empty: "primary_keys \<lparr>hosts_table = [], services_table = []\<rparr>"
  by (simp add: primary_keys_def)

lemmas example_defs = example_ledger_def orphan_ledger_def default_generator_def no_faults_def

lemmas store_defs = prune_def Add_def Unix_def time_Unix_def unixToInternal_def Second_def
  DeleteStaleHosts_def DeleteStaleServices_def GetAllHosts_def GetAllServices_def

subsection \<open>The stale cutoff\<close>

text \<open>
  A deletion that runs removes exactly the rows whose last_seen is below the cutoff, both
  in Unix seconds, and returns their number; the other table is not touched.
\<close>

lemma stale_deletion_rows:
  "set (hosts_table (fst (DeleteStaleHosts ExecOK cutoff m)))
     = {r \<in> set (hosts_table m). \<not> snd r < Unix cutoff}"
  "fst (snd (DeleteStaleHosts ExecOK cutoff m))
     = int (length (filter (\<lambda>r. snd r < Unix cutoff) (hosts_table m)))"
  "snd (snd (DeleteStaleHosts ExecOK cutoff m)) = None"
  "services_table (fst (DeleteStaleHosts ExecOK cutoff m)) = services_table m"
  "set (services_table (fst (DeleteStaleServices ExecOK cutoff m)))
     = {r \<in> set (services_table m). \<not> snd r < Unix cutoff}"
  "fst (snd (DeleteStaleServices ExecOK cutoff m))
     = int (length (filter (\<lambda>r. snd r < Unix cutoff) (services_table m)))"
  "snd (snd (DeleteStaleServices ExecOK cutoff m)) = None"
  "hosts_table (fst (DeleteStaleServices ExecOK cutoff m)) = hosts_table m"
proof -
  have h: "delete_older c rows
      = (filter (\<lambda>r. \<not> snd r < c) rows, length (filter (\<lambda>r. snd r < c) rows))"
    for c :: int and rows :: "('k \<times> int) list"
    using delete_older_kept [of c rows] delete_older_count [of c rows]
    by (cases "delete_older c rows") simp
  show "set (hosts_table (fst (DeleteStaleHosts ExecOK cutoff m)))
     = {r \<in> set (hosts_table m). \<not> snd r < Unix cutoff}"
    "fst (snd (DeleteStaleHosts ExecOK cutoff m))
     = int (length (filter (\<lambda>r. snd r < Unix cutoff) (hosts_table m)))"
    "snd (snd (DeleteStaleHosts ExecOK cutoff m)) = None"
    "services_table (fst (DeleteStaleHosts ExecOK cutoff m)) = services_table m"
    "set (services_table (fst (DeleteStaleServices ExecOK cutoff m)))
     = {r \<in> set (services_table m). \<not> snd r < Unix cutoff}"
    "fst (snd (DeleteStaleServices ExecOK cutoff m))
     = int (length (filter (\<lambda>r. snd r < Unix cutoff) (services_table m)))"
    "snd (snd (DeleteStaleServices ExecOK cutoff m)) = None"
    "hosts_table (fst (DeleteStaleServices ExecOK cutoff m)) = hosts_table m"
    by (auto simp add: DeleteStaleHosts_def DeleteStaleServices_def h)
qed

text \<open>
  The negation of an int64 is the negation of its value, except at the least int64, which
  is its own negation.
\<close>

lemma sint_minus_int64:
  fixes d :: "64 word"
  assumes "d \<noteq> - 9223372036854775808"
  shows "sint (- d) = - sint d"
proof -
  have "sint d \<noteq> - 9223372036854775808"
  proof
    assume "sint d = - 9223372036854775808"
    then have "sint d = sint (- 9223372036854775808 :: 64 word)" by simp
    then have "d = - 9223372036854775808" by (simp only: word_eq_iff_signed [symmetric])
    with assms show False by simp
  qed
  moreover have "- 9223372036854775808 \<le> sint d" "sint d < 9223372036854775808"
    using sint_ge [of d] sint_lt [of d] by simp_all
  ultimately have "- (2 ^ 63) \<le> - sint d \<and> - sint d < 2 ^ 63" by simp
  then have "signed_take_bit 63 (- sint d) = - sint d"
    by (simp only: signed_take_bit_int_eq_self_iff)
  then show ?thesis by (simp add: sint_word_ariths)
qed

text \<open>So the cutoff of a cycle is the stale threshold before now, for every other threshold.\<close>

lemma stale_cutoff:
  "staleThreshold g \<noteq> - 9223372036854775808 \<Longrightarrow>
   Add now (- staleThreshold g) = now - sint (staleThreshold g)"
  by (simp add: Add_def sint_minus_int64)

section \<open>The paths of the generated file\<close>

lemma split_from_slash:
  "split_from element (xs @ CHR ''/'' # ys) = split_from element xs @ split_from [] ys"
  by (induction xs arbitrary: element) simp_all

lemma split_from_plain:
  "CHR ''/'' \<notin> set name \<Longrightarrow> split_from element name = [element @ name]"
  by (induction name arbitrary: element) auto

lemma join_slash_snoc:
  "join_slash (elements @ [name]) = concat (map (\<lambda>x. x @ ''/'') elements) @ name"
proof (induction elements)
  case Nil
  show ?case by simp
next
  case (Cons x xs)
  then show ?case by (cases xs) simp_all
qed

lemma filepath_Join_plain:
  assumes "plain_name name"
  shows "filepath_Join dir name = join_prefix dir @ name"
proof (cases "dir = []")
  case True
  have "split_slash name = [name]"
    using assms by (simp add: split_slash_def split_from_plain plain_name_def)
  moreover have "hd name \<noteq> CHR ''/''"
    using assms by (cases name) (auto simp: plain_name_def)
  ultimately show ?thesis
    using True assms
    by (simp add: filepath_Join_def Clean_def clean_step_def join_prefix_def plain_name_def)
next
  case False
  have s: "split_slash (dir @ CHR ''/'' # name) = split_slash dir @ [name]"
    using assms by (simp add: split_slash_def split_from_slash split_from_plain plain_name_def)
  have r: "hd (dir @ CHR ''/'' # name) = hd dir"
    using False by simp
  have c: "clean_step rooted out name = out @ [name]" for rooted out
    using assms by (simp add: clean_step_def plain_name_def)
  show ?thesis
    using False assms
    by (simp add: filepath_Join_def Clean_def Let_def s r c join_slash_snoc join_prefix_def
        plain_name_def)
qed

lemma tempFileName_eq: "tempFileName g = finalFileName g @ ''.tmp''"
proof -
  have "plain_name ''nrdp_generated.cfg.tmp''" "plain_name ''nrdp_generated.cfg''"
    by (simp_all add: plain_name_def)
  then show ?thesis
    by (simp add: tempFileName_def finalFileName_def filepath_Join_plain)
qed

lemma tempFileName_neq: "tempFileName g \<noteq> finalFileName g"
  by (simp add: tempFileName_eq)

lemma default_paths:
  "finalFileName default_generator = ''/etc/nagios4/dynamic/nrdp_generated.cfg''"
  "tempFileName default_generator = ''/etc/nagios4/dynamic/nrdp_generated.cfg.tmp''"
  by (simp_all add: tempFileName_def finalFileName_def filepath_Join_def Clean_def
      split_slash_def clean_step_def default_generator_def)

lemma Clean_examples:
  "filepath_Join ''/etc/nagios4/dynamic/'' ''nrdp_generated.cfg'' = ''/etc/nagios4/dynamic/nrdp_generated.cfg''"
  "Clean ''a//b/./c/../d/'' = ''a/b/d''"
  "Clean ''../../a/..'' = ''../..''"
  "Clean ''/../a'' = ''/a''"
  "Clean '''' = ''.''"
  "Clean ''/'' = ''/''"
  "Clean ''a/..'' = ''.''"
  by (simp_all add: filepath_Join_def Clean_def split_slash_def clean_step_def)

section \<open>The regeneration cycle\<close>

lemma ledger_after: "ledger (after (generateConfigs g e now w)) = prune g e now (ledger w)"
  by (simp add: generateConfigs_def publish_def Let_def WriteFile_def Rename_def Remove_def
      split: sum.splits prod.splits option.splits write_fault.splits)

lemma publish_updated:
  "write_fault e = WriteOK \<Longrightarrow> \<not> rename_fails e \<Longrightarrow>
   publish g e content w =
     \<lparr>after = w\<lparr>files := ((files w)(tempFileName g := None))(finalFileName g \<mapsto> content)\<rparr>,
      trace = [EvWriteFile (tempFileName g) content None,
               EvRename (tempFileName g) (finalFileName g) None,
               EvReload (receiver_ready e)],
      outcome = Updated, newConfigContent = Some content\<rparr>"
  by (simp add: publish_def WriteFile_def Rename_def)

lemma publish_rename_failed:
  "write_fault e = WriteOK \<Longrightarrow> rename_fails e \<Longrightarrow>
   publish g e content w =
     \<lparr>after = w\<lparr>files := (if remove_fails e then (files w)(tempFileName g \<mapsto> content)
                            else (files w)(tempFileName g := None))\<rparr>,
      trace = [EvWriteFile (tempFileName g) content None,
               EvRename (tempFileName g) (finalFileName g) (Some ErrOther),
               EvRemove (tempFileName g) (if remove_fails e then Some ErrOther else None)],
      outcome = RenameFailed, newConfigContent = Some content\<rparr>"
  by (simp add: publish_def WriteFile_def Rename_def Remove_def)

lemma publish_write_failed:
  "write_fault e \<noteq> WriteOK \<Longrightarrow>
   publish g e content w =
     \<lparr>after = w\<lparr>files := (case write_fault e of
                              WriteFailsAfter n \<Rightarrow> (files w)(tempFileName g \<mapsto> take n content)
                            | _ \<Rightarrow> files w)\<rparr>,
      trace = [EvWriteFile (tempFileName g) content (Some ErrOther)],
      outcome = WriteFailed, newConfigContent = Some content\<rparr>"
  by (cases "write_fault e") (simp_all add: publish_def WriteFile_def)

lemma publish_outcome:
  "outcome (publish g e content w) =
     (if write_fault e \<noteq> WriteOK then WriteFailed
      else if rename_fails e then RenameFailed else Updated)"
  by (simp add: publish_write_failed publish_rename_failed publish_updated)

text \<open>Where a cycle ends: before the publishing step, with nothing done, or in it.\<close>

lemma generateConfigs_cases:
  "(outcome (generateConfigs g e now w) \<in> {HostsFetchFailed, ServicesFetchFailed, NoActiveRecords, Identical}
     \<and> trace (generateConfigs g e now w) = []
     \<and> after (generateConfigs g e now w) = w\<lparr>ledger := prune g e now (ledger w)\<rparr>)
   \<or> (\<exists>hosts services.
         GetAllHosts (get_hosts_fails e) (prune g e now (ledger w)) = Inr hosts
       \<and> GetAllServices (get_services_fails e) (prune g e now (ledger w)) = Inr services
       \<and> generateConfigs g e now w
           = publish g e (render g hosts services) (w\<lparr>ledger := prune g e now (ledger w)\<rparr>))"
  by (auto simp add: generateConfigs_def Let_def split: sum.splits)

lemma generateConfigs_fetch_failed:
  "get_hosts_fails e \<Longrightarrow> generateConfigs g e now w =
     \<lparr>after = w\<lparr>ledger := prune g e now (ledger w)\<rparr>, trace = [],
      outcome = HostsFetchFailed, newConfigContent = None\<rparr>"
  "\<not> get_hosts_fails e \<Longrightarrow> get_services_fails e \<Longrightarrow> generateConfigs g e now w =
     \<lparr>after = w\<lparr>ledger := prune g e now (ledger w)\<rparr>, trace = [],
      outcome = ServicesFetchFailed, newConfigContent = None\<rparr>"
  by (simp_all add: generateConfigs_def GetAllHosts_def GetAllServices_def)

lemma generateConfigs_fetched:
  assumes "GetAllHosts (get_hosts_fails e) (prune g e now (ledger w)) = Inr hosts"
    and "GetAllServices (get_services_fails e) (prune g e now (ledger w)) = Inr services"
  shows "generateConfigs g e now w =
     (if hosts = [] \<and> services = []
      then \<lparr>after = w\<lparr>ledger := prune g e now (ledger w)\<rparr>, trace = [],
            outcome = NoActiveRecords, newConfigContent = None\<rparr>
      else if render g hosts services = fst (ReadFile (read_fault e) (files w) (finalFileName g))
      then \<lparr>after = w\<lparr>ledger := prune g e now (ledger w)\<rparr>, trace = [],
            outcome = Identical, newConfigContent = Some (render g hosts services)\<rparr>
      else publish g e (render g hosts services) (w\<lparr>ledger := prune g e now (ledger w)\<rparr>))"
  using assms by (simp add: generateConfigs_def Let_def)

text \<open>
  C7. When the host fetch and the service fetch both return the empty list, the cycle stops
  before rendering: there is no new content, no file operation and no reload signal, and
  every file, the published one included, is as it was.
\<close>

theorem no_active_records_skips:
  assumes "GetAllHosts (get_hosts_fails e) (prune g e now (ledger w)) = Inr []"
    and "GetAllServices (get_services_fails e) (prune g e now (ledger w)) = Inr []"
  shows "outcome (generateConfigs g e now w) = NoActiveRecords
       \<and> newConfigContent (generateConfigs g e now w) = None
       \<and> trace (generateConfigs g e now w) = []
       \<and> files (after (generateConfigs g e now w)) = files w"
  by (simp add: generateConfigs_fetched [OF assms])

lemma fetch_outcomes:
  "(outcome (generateConfigs g e now w) = HostsFetchFailed) = get_hosts_fails e"
  "(outcome (generateConfigs g e now w) = ServicesFetchFailed)
     = (\<not> get_hosts_fails e \<and> get_services_fails e)"
proof -
  have "(outcome (generateConfigs g e now w) = HostsFetchFailed) = get_hosts_fails e
      \<and> (outcome (generateConfigs g e now w) = ServicesFetchFailed)
          = (\<not> get_hosts_fails e \<and> get_services_fails e)"
  proof (cases "get_hosts_fails e \<or> get_services_fails e")
    case True
    then show ?thesis
      by (cases "get_hosts_fails e") (simp_all add: generateConfigs_fetch_failed)
  next
    case False
    then have "GetAllHosts (get_hosts_fails e) (prune g e now (ledger w))
          = Inr (projr (GetAllHosts False (prune g e now (ledger w))))"
      "GetAllServices (get_services_fails e) (prune g e now (ledger w))
          = Inr (projr (GetAllServices False (prune g e now (ledger w))))"
      by (simp_all add: GetAllHosts_def GetAllServices_def)
    from generateConfigs_fetched [OF this] False show ?thesis
      by (simp add: publish_outcome)
  qed
  then show "(outcome (generateConfigs g e now w) = HostsFetchFailed) = get_hosts_fails e"
    "(outcome (generateConfigs g e now w) = ServicesFetchFailed)
       = (\<not> get_hosts_fails e \<and> get_services_fails e)"
    by simp_all
qed

text \<open>
  C6, amended. The cycle stops at the fetching step exactly when a fetch fails: at the
  host fetch when it fails, at the service fetch when the host fetch succeeds and the
  service fetch fails. A cycle stopped there has rendered nothing, performed no file
  operation, sent no reload signal and left every file as it was.
\<close>

theorem fetch_failure_aborts_cycle:
  "(outcome (generateConfigs g e now w) = HostsFetchFailed) = get_hosts_fails e
   \<and> (outcome (generateConfigs g e now w) = ServicesFetchFailed)
       = (\<not> get_hosts_fails e \<and> get_services_fails e)
   \<and> (get_hosts_fails e \<or> get_services_fails e \<longrightarrow>
         trace (generateConfigs g e now w) = []
       \<and> newConfigContent (generateConfigs g e now w) = None
       \<and> files (after (generateConfigs g e now w)) = files w)"
proof -
  have "get_hosts_fails e \<or> get_services_fails e \<Longrightarrow>
         trace (generateConfigs g e now w) = []
       \<and> newConfigContent (generateConfigs g e now w) = None
       \<and> files (after (generateConfigs g e now w)) = files w"
    by (cases "get_hosts_fails e") (auto simp add: generateConfigs_fetch_failed)
  then show ?thesis by (simp add: fetch_outcomes)
qed

lemma render_no_hosts: "render g [] services = []"
  by (simp add: render_def)

text \<open>
  C2. A cycle that reaches the publishing step first writes the new content to the
  temporary path, which is the final path with \<open>.tmp\<close> appended; when that write
  succeeds the next operation is the rename of the temporary path onto the final path.
  A cycle that ends \<open>Updated\<close> leaves the new content at the final path and no
  temporary file. The rename fails exactly in the cycles that end \<open>RenameFailed\<close>;
  such a cycle then tries once to remove the temporary file (which is gone unless the
  removal fails too), sends no reload signal, and leaves the final path, and every path
  but the temporary one, with the content it had.
\<close>

theorem publish_via_temporary_file:
  assumes "outcome (generateConfigs g e now w) \<in> {WriteFailed, RenameFailed, Updated}"
  shows "\<exists>content. newConfigContent (generateConfigs g e now w) = Some content
     \<and> (\<exists>err. hd (trace (generateConfigs g e now w)) = EvWriteFile (tempFileName g) content err)
     \<and> trace (generateConfigs g e now w) \<noteq> []
     \<and> tempFileName g = finalFileName g @ ''.tmp''
     \<and> (outcome (generateConfigs g e now w) \<noteq> WriteFailed \<longrightarrow>
          (\<exists>err. take 2 (trace (generateConfigs g e now w))
             = [EvWriteFile (tempFileName g) content None,
                EvRename (tempFileName g) (finalFileName g) err]))
     \<and> (outcome (generateConfigs g e now w) = Updated \<longrightarrow>
          files (after (generateConfigs g e now w))
            = ((files w)(tempFileName g := None))(finalFileName g \<mapsto> content))
     \<and> ((outcome (generateConfigs g e now w) = RenameFailed)
          = (write_fault e = WriteOK \<and> rename_fails e))
     \<and> (outcome (generateConfigs g e now w) = RenameFailed \<longrightarrow>
          trace (generateConfigs g e now w)
            = [EvWriteFile (tempFileName g) content None,
               EvRename (tempFileName g) (finalFileName g) (Some ErrOther),
               EvRemove (tempFileName g) (if remove_fails e then Some ErrOther else None)]
        \<and> files (after (generateConfigs g e now w)) (finalFileName g) = files w (finalFileName g)
        \<and> (\<not> remove_fails e \<longrightarrow> files (after (generateConfigs g e now w)) (tempFileName g) = None)
        \<and> (\<forall>p. p \<noteq> tempFileName g \<longrightarrow> files (after (generateConfigs g e now w)) p = files w p))"
proof -
  from generateConfigs_cases [of g e now w] assms
  obtain hosts services where c: "generateConfigs g e now w
      = publish g e (render g hosts services) (w\<lparr>ledger := prune g e now (ledger w)\<rparr>)"
    by auto
  have n: "finalFileName g \<noteq> tempFileName g" using tempFileName_neq [of g] by simp
  note t = tempFileName_eq [of g]
  show ?thesis
  proof (cases "write_fault e = WriteOK")
    case False
    then show ?thesis by (simp add: c publish_write_failed t [symmetric])
  next
    case ok: True
    show ?thesis
    proof (cases "rename_fails e")
      case True
      with ok n show ?thesis by (simp add: c publish_rename_failed t [symmetric])
    next
      case False
      with ok show ?thesis by (simp add: c publish_updated t [symmetric])
    qed
  qed
qed

text \<open>
  C1. Let a first cycle publish its content, or find it identical to the published file
  it read. If a second cycle, started in the state the first one left, fetches from an
  unchanged ledger and reads the published file, then it renders the same bytes as the
  first, ends at the comparison, performs no file operation, sends no reload signal and
  leaves every file as it was.
\<close>

theorem unchanged_snapshot_is_not_republished:
  assumes first: "outcome (generateConfigs g e1 t1 w) = Updated
            \<or> (outcome (generateConfigs g e1 t1 w) = Identical \<and> read_fault e1 = ReadOK)"
    and same: "ledger (after (generateConfigs g e2 t2 (after (generateConfigs g e1 t1 w))))
                 = ledger (after (generateConfigs g e1 t1 w))"
    and ok: "\<not> get_hosts_fails e2" "\<not> get_services_fails e2" "read_fault e2 = ReadOK"
  shows "newConfigContent (generateConfigs g e2 t2 (after (generateConfigs g e1 t1 w)))
           = newConfigContent (generateConfigs g e1 t1 w)
       \<and> newConfigContent (generateConfigs g e1 t1 w) \<noteq> None
       \<and> outcome (generateConfigs g e2 t2 (after (generateConfigs g e1 t1 w))) = Identical
       \<and> trace (generateConfigs g e2 t2 (after (generateConfigs g e1 t1 w))) = []
       \<and> files (after (generateConfigs g e2 t2 (after (generateConfigs g e1 t1 w))))
           = files (after (generateConfigs g e1 t1 w))"
proof -
  define c1 where "c1 = generateConfigs g e1 t1 w"
  define m where "m = prune g e1 t1 (ledger w)"
  have m1: "ledger (after c1) = m" by (simp add: c1_def m_def ledger_after)
  have m2: "prune g e2 t2 (ledger (after c1)) = m"
    using same by (simp add: ledger_after c1_def [symmetric] m1)
  have f1: "\<not> get_hosts_fails e1" "\<not> get_services_fails e1"
    using first fetch_outcomes [of g e1 t1 w] by auto
  define hosts where "hosts = projr (GetAllHosts False m)"
  define services where "services = projr (GetAllServices False m)"
  have h1: "GetAllHosts (get_hosts_fails e1) (prune g e1 t1 (ledger w)) = Inr hosts"
    and s1: "GetAllServices (get_services_fails e1) (prune g e1 t1 (ledger w)) = Inr services"
    using f1 by (simp_all add: hosts_def services_def m_def GetAllHosts_def GetAllServices_def)
  have h2: "GetAllHosts (get_hosts_fails e2) (prune g e2 t2 (ledger (after c1))) = Inr hosts"
    and s2: "GetAllServices (get_services_fails e2) (prune g e2 t2 (ledger (after c1))) = Inr services"
    using ok by (simp_all add: m2 hosts_def services_def GetAllHosts_def GetAllServices_def)
  note g1 = generateConfigs_fetched [OF h1 s1, folded c1_def]
  note g2 = generateConfigs_fetched [OF h2 s2]
  have ne: "\<not> (hosts = [] \<and> services = [])"
    using first g1 by (auto simp: c1_def [symmetric])
  have content: "newConfigContent c1 = Some (render g hosts services)"
    using g1 ne by (simp add: publish_def split: prod.splits option.splits)
  have published: "fst (ReadFile ReadOK (files (after c1)) (finalFileName g)) = render g hosts services"
  proof (cases "outcome c1 = Updated")
    case True
    then have "write_fault e1 = WriteOK" "\<not> rename_fails e1"
        "c1 = publish g e1 (render g hosts services) (w\<lparr>ledger := prune g e1 t1 (ledger w)\<rparr>)"
      using g1 ne by (auto simp: publish_outcome split: if_splits)
    then show ?thesis by (simp add: publish_updated ReadFile_def)
  next
    case False
    with first have i: "outcome c1 = Identical" "read_fault e1 = ReadOK"
      by (simp_all add: c1_def)
    then have "render g hosts services = fst (ReadFile ReadOK (files w) (finalFileName g))"
        "after c1 = w\<lparr>ledger := prune g e1 t1 (ledger w)\<rparr>"
      using g1 ne by (auto simp: publish_outcome split: if_splits)
    then show ?thesis by simp
  qed
  show ?thesis
    unfolding c1_def [symmetric]
    using ne content published ok by (simp add: g2)
qed

text \<open>
  C10. When the host fetch returns the empty list and the service fetch returns at least
  one service, the cycle is not stopped as having no active records, and the new content
  is the empty string. If there is no published file the cycle ends at the comparison
  with no file operation and no reload signal. If the published file is not empty, and
  reading it, writing the temporary file and renaming it succeed, the cycle replaces the
  published file by an empty one and sends the reload signal (which is received if a
  receiver is waiting).
\<close>

theorem orphans_only_render_empty:
  assumes "GetAllHosts (get_hosts_fails e) (prune g e now (ledger w)) = Inr []"
    and "GetAllServices (get_services_fails e) (prune g e now (ledger w)) = Inr (s # ss)"
  shows "outcome (generateConfigs g e now w) \<noteq> NoActiveRecords
     \<and> newConfigContent (generateConfigs g e now w) = Some []
     \<and> (files w (finalFileName g) = None \<longrightarrow>
          outcome (generateConfigs g e now w) = Identical
        \<and> trace (generateConfigs g e now w) = []
        \<and> files (after (generateConfigs g e now w)) = files w)
     \<and> (\<forall>old. files w (finalFileName g) = Some old \<and> old \<noteq> [] \<and> read_fault e = ReadOK
               \<and> write_fault e = WriteOK \<and> \<not> rename_fails e \<longrightarrow>
          outcome (generateConfigs g e now w) = Updated
        \<and> files (after (generateConfigs g e now w)) (finalFileName g) = Some []
        \<and> trace (generateConfigs g e now w)
            = [EvWriteFile (tempFileName g) [] None,
               EvRename (tempFileName g) (finalFileName g) None,
               EvReload (receiver_ready e)])"
proof -
  note c = generateConfigs_fetched [OF assms]
  have a: "outcome (generateConfigs g e now w) \<noteq> NoActiveRecords"
    by (simp add: c render_no_hosts publish_outcome)
  have b: "newConfigContent (generateConfigs g e now w) = Some []"
    by (simp add: c render_no_hosts publish_def split: prod.splits option.splits)
  have d: "files w (finalFileName g) = None \<Longrightarrow>
          outcome (generateConfigs g e now w) = Identical
        \<and> trace (generateConfigs g e now w) = []
        \<and> files (after (generateConfigs g e now w)) = files w"
    by (simp add: c render_no_hosts ReadFile_def)
  have f: "files w (finalFileName g) = Some old \<Longrightarrow> old \<noteq> [] \<Longrightarrow> read_fault e = ReadOK
               \<Longrightarrow> write_fault e = WriteOK \<Longrightarrow> \<not> rename_fails e \<Longrightarrow>
          outcome (generateConfigs g e now w) = Updated
        \<and> files (after (generateConfigs g e now w)) (finalFileName g) = Some []
        \<and> trace (generateConfigs g e now w)
            = [EvWriteFile (tempFileName g) [] None,
               EvRename (tempFileName g) (finalFileName g) None,
               EvReload (receiver_ready e)]" for old
    by (auto simp add: c render_no_hosts ReadFile_def publish_updated)
  from a b d f show ?thesis by blast
qed

theorem no_active_records_skips_witness:
  "GetAllHosts (get_hosts_fails no_faults)
      (prune default_generator no_faults (1800000000 * Second) example_ledger) = Inr []
   \<and> GetAllServices (get_services_fails no_faults)
      (prune default_generator no_faults (1800000000 * Second) example_ledger) = Inr []
   \<and> outcome (generateConfigs default_generator no_faults (1800000000 * Second)
        \<lparr>ledger = example_ledger,
         files = [finalFileName default_generator \<mapsto> ''define host {}'']\<rparr>) = NoActiveRecords
   \<and> trace (generateConfigs default_generator no_faults (1800000000 * Second)
        \<lparr>ledger = example_ledger,
         files = [finalFileName default_generator \<mapsto> ''define host {}'']\<rparr>) = []
   \<and> files (after (generateConfigs default_generator no_faults (1800000000 * Second)
        \<lparr>ledger = example_ledger,
         files = [finalFileName default_generator \<mapsto> ''define host {}'']\<rparr>))
       (finalFileName default_generator) = Some ''define host {}''"
proof -
  have h: "GetAllHosts (get_hosts_fails no_faults)
      (prune default_generator no_faults (1800000000 * Second) example_ledger) = Inr []"
    and s: "GetAllServices (get_services_fails no_faults)
      (prune default_generator no_faults (1800000000 * Second) example_ledger) = Inr []"
    by (simp_all add: example_defs store_defs)
  show ?thesis
    using h s no_active_records_skips [of no_faults default_generator "1800000000 * Second"
      "\<lparr>ledger = example_ledger, files = [finalFileName default_generator \<mapsto> ''define host {}'']\<rparr>"]
    by simp
qed

text \<open>
  C6, as stated, fails: here only the host fetch fails, the service fetch would return
  three services, and the cycle stops at the fetching step without rendering.
\<close>

theorem single_fetch_failure_counterexample:
  "get_hosts_fails (no_faults\<lparr>get_hosts_fails := True\<rparr>)
   \<and> \<not> get_services_fails (no_faults\<lparr>get_hosts_fails := True\<rparr>)
   \<and> outcome (generateConfigs default_generator (no_faults\<lparr>get_hosts_fails := True\<rparr>)
        (1700003600 * Second) \<lparr>ledger = example_ledger, files = Map.empty\<rparr>) = HostsFetchFailed
   \<and> newConfigContent (generateConfigs default_generator (no_faults\<lparr>get_hosts_fails := True\<rparr>)
        (1700003600 * Second) \<lparr>ledger = example_ledger, files = Map.empty\<rparr>) = None"
  by (simp add: generateConfigs_def GetAllHosts_def no_faults_def)


theorem fetch_failure_aborts_cycle_witness:
  "(get_hosts_fails (no_faults\<lparr>get_services_fails := True\<rparr>)
      \<or> get_services_fails (no_faults\<lparr>get_services_fails := True\<rparr>))
   \<and> outcome (generateConfigs default_generator (no_faults\<lparr>get_services_fails := True\<rparr>)
        (1700003600 * Second) \<lparr>ledger = example_ledger, files = Map.empty\<rparr>)
       = ServicesFetchFailed
   \<and> trace (generateConfigs default_generator (no_faults\<lparr>get_services_fails := True\<rparr>)
        (1700003600 * Second) \<lparr>ledger = example_ledger, files = Map.empty\<rparr>) = []
   \<and> files (after (generateConfigs default_generator (no_faults\<lparr>get_services_fails := True\<rparr>)
        (1700003600 * Second) \<lparr>ledger = example_ledger, files = Map.empty\<rparr>)) = Map.empty"
  using fetch_failure_aborts_cycle [of default_generator "no_faults\<lparr>get_services_fails := True\<rparr>"
      "1700003600 * Second" "\<lparr>ledger = example_ledger, files = Map.empty\<rparr>"]
  by (simp add: no_faults_def)

end
